theory Spec2Isabelle
  imports Complex_Main "HOL-Library.Sublist"
begin

section \<open>The screen recorder hook (src/hooks/useScreenRecorder.ts)\<close>

text \<open>
  The hook keeps six pieces of React state and seven refs, and it drives three kinds of
  browser objects: media stream tracks, MediaRecorder instances and interval timers.
  The browser objects live in explicit stores (object identity is a natural number), so
  that an object the hook no longer references is still there, as it is in the browser.

  Every handler is one transition on the whole state. A handler reads the React state of
  the latest render; the one closure that outlives a render, the interval callback, keeps
  the value of \<open>isPaused\<close> it was created with, and the model stores that value
  with the interval. The instants read from \<open>Date.now()\<close> are arguments, in
  milliseconds.

  \<open>startRecording\<close> awaits the browser twice, and other handlers, another
  \<open>startRecording\<close> included, run while it waits. The model splits it at the two
  awaits: the statements up to the first await, the continuation after the display
  answers, and the continuation after the microphone answers. A call that is waiting is
  kept in a store of its own with what its closure holds. The handler it registers for
  the end of the shared video track is outside the model.
\<close>

type_synonym byte = nat

record blob =
  blobBytes :: "byte list"
  blobType :: string

definition blobSize :: "blob \<Rightarrow> nat" where
  "blobSize b = length (blobBytes b)"

text \<open>\<open>new Blob(parts, { type })\<close>: the bytes of the parts, in order.\<close>

definition newBlob :: "blob list \<Rightarrow> string \<Rightarrow> blob" where
  "newBlob parts ty = \<lparr>blobBytes = concat (map blobBytes parts), blobType = ty\<rparr>"

datatype track_kind = Video | Audio

record track =
  kind :: track_kind
  enabled :: bool
  live :: bool

datatype encoder_state = Inactive | Recording | Paused

record encoder =
  encStream :: "nat list"
  encMime :: string
  encState :: encoder_state

text \<open>
  A suspended call of \<open>startRecording\<close>: at the first await it holds its argument and
  the \<open>isPaused\<close> of the render it was called from; at the second await also the
  video track of the display stream it has obtained.
\<close>

datatype pending = AwaitingDisplay bool bool | AwaitingMicrophone nat bool

record hook =
  isRecording :: bool
  isPaused :: bool
  recordingTime :: int
  videoBlob :: "blob option"
  error :: "string option"
  isMicrophoneEnabled :: bool
  mediaRecorderRef :: "nat option"
  streamRef :: "nat list option"
  audioTrackRef :: "nat option"
  chunksRef :: "blob list"
  timerRef :: "nat option"
  startTimeRef :: int
  pausedTimeRef :: int
  tracks :: "nat \<Rightarrow> track"
  trackCount :: nat
  encoders :: "nat \<Rightarrow> encoder"
  encoderCount :: nat
  intervals :: "nat \<Rightarrow> bool option"
  intervalCount :: nat
  pendingStarts :: "nat \<Rightarrow> pending option"
  startCount :: nat

text \<open>
  The stores: \<open>tracks\<close> and \<open>encoders\<close> hold the objects created so far
  (ids below the counters); \<open>intervals i = Some p\<close> is a running interval whose
  callback captured \<open>isPaused = p\<close>, and \<open>None\<close> a cleared or unused id;
  \<open>pendingStarts c = Some w\<close> is a call of \<open>startRecording\<close> suspended at an
  await.
\<close>

definition freshTrack :: "track_kind \<Rightarrow> track" where
  "freshTrack k = \<lparr>kind = k, enabled = True, live = True\<rparr>"

definition initialHook :: hook where
  "initialHook = \<lparr>isRecording = False, isPaused = False, recordingTime = 0,
     videoBlob = None, error = None, isMicrophoneEnabled = True,
     mediaRecorderRef = None, streamRef = None, audioTrackRef = None, chunksRef = [],
     timerRef = None, startTimeRef = 0, pausedTimeRef = 0,
     tracks = (\<lambda>_. \<lparr>kind = Video, enabled = True, live = False\<rparr>), trackCount = 0,
     encoders = (\<lambda>_. \<lparr>encStream = [], encMime = [], encState = Inactive\<rparr>),
     encoderCount = 0,
     intervals = (\<lambda>_. None), intervalCount = 0,
     pendingStarts = (\<lambda>_. None), startCount = 0\<rparr>"

subsection \<open>What the browser answers to a start request\<close>

text \<open>
  A rejected promise or a throwing constructor carries a value: an \<open>Error\<close> with its
  message, or something else. \<open>getDisplayMedia\<close> resolves with a stream of one video
  track (\<open>displayMedia = None\<close>) or rejects; \<open>getUserMedia\<close> resolves with a
  stream of some number of audio tracks or rejects; \<open>encoderThrows\<close> is what the
  \<open>MediaRecorder\<close> constructor throws, if it does.
\<close>

datatype thrown = ErrorObject string | OtherValue

datatype mic_result = MicDenied | MicGranted nat

record start_env =
  displayMedia :: "thrown option"
  userMedia :: mic_result
  isTypeSupported :: "string \<Rightarrow> bool"
  encoderThrows :: "thrown option"

definition startErrorMessage :: "thrown \<Rightarrow> string" where
  "startErrorMessage e =
     (case e of ErrorObject m \<Rightarrow> m | OtherValue \<Rightarrow> ''Failed to start recording'')"

definition chooseMimeType :: "(string \<Rightarrow> bool) \<Rightarrow> string" where
  "chooseMimeType supported =
     (let m1 = ''video/webm;codecs=vp9,opus'';
          m2 = (if \<not> supported m1 then ''video/webm;codecs=vp8,opus'' else m1);
          m3 = (if \<not> supported m2 then ''video/webm'' else m2)
      in m3)"

text \<open>\<open>track.stop()\<close> on every track of a stream.\<close>

definition stopTracks :: "nat list \<Rightarrow> (nat \<Rightarrow> track) \<Rightarrow> (nat \<Rightarrow> track)" where
  "stopTracks ids ts = (\<lambda>i. if i \<in> set ids then (ts i)\<lparr>live := False\<rparr> else ts i)"

definition setEncState :: "nat \<Rightarrow> encoder_state \<Rightarrow> (nat \<Rightarrow> encoder) \<Rightarrow> (nat \<Rightarrow> encoder)" where
  "setEncState r st es = es(r := (es r)\<lparr>encState := st\<rparr>)"

subsection \<open>startRecording\<close>

text \<open>
  The statements up to \<open>await getDisplayMedia\<close> (lines 45 to 49): the call is then
  suspended.
\<close>

definition startRecording_begin :: "bool \<Rightarrow> hook \<Rightarrow> hook" where
  "startRecording_begin enableMicrophone s =
     s\<lparr>error := None, chunksRef := [], isMicrophoneEnabled := enableMicrophone,
       pendingStarts := (pendingStarts s)
         (startCount s := Some (AwaitingDisplay enableMicrophone (isPaused s))),
       startCount := Suc (startCount s)\<rparr>"

text \<open>
  From the combination of the streams to the end of the \<open>try\<close> block (lines 78 to
  140), for the video track \<open>v\<close> and the audio tracks obtained.
\<close>

definition startRecording_rest ::
  "start_env \<Rightarrow> nat \<Rightarrow> nat list \<Rightarrow> bool \<Rightarrow> int \<Rightarrow> hook \<Rightarrow> hook" where
  "startRecording_rest env v audioIds capturedPaused now s =
     (let combined = [v] @ audioIds;
          s4 = s\<lparr>streamRef := Some combined\<rparr>;
          mime = chooseMimeType (isTypeSupported env)
      in case encoderThrows env of
           Some e \<Rightarrow> s4\<lparr>error := Some (startErrorMessage e)\<rparr>
         | None \<Rightarrow>
            (let r = encoderCount s4;
                 s5 = s4\<lparr>encoders := (encoders s4)
                           (r := \<lparr>encStream = combined, encMime = mime, encState = Recording\<rparr>),
                         encoderCount := Suc r,
                         mediaRecorderRef := Some r,
                         isRecording := True, isPaused := False,
                         startTimeRef := now - pausedTimeRef s4,
                         pausedTimeRef := 0\<rparr>;
                 t = intervalCount s5
             in s5\<lparr>intervals := (intervals s5)(t := Some capturedPaused),
                   intervalCount := Suc t,
                   timerRef := Some t\<rparr>))"

text \<open>
  The continuation after \<open>getDisplayMedia\<close> has answered (lines 49 to 61). A rejection
  goes to the \<open>catch\<close> block. With the microphone requested the call is suspended
  again, holding the video track; without it the call runs to its end.
\<close>

definition startRecording_afterDisplay :: "nat \<Rightarrow> start_env \<Rightarrow> int \<Rightarrow> hook \<Rightarrow> hook" where
  "startRecording_afterDisplay c env now s =
     (case pendingStarts s c of
        Some (AwaitingDisplay enableMicrophone capturedPaused) \<Rightarrow>
          (let s0 = s\<lparr>pendingStarts := (pendingStarts s)(c := None)\<rparr>
           in case displayMedia env of
                Some e \<Rightarrow> s0\<lparr>error := Some (startErrorMessage e)\<rparr>
              | None \<Rightarrow>
                 (let v = trackCount s0;
                      s2 = s0\<lparr>tracks := (tracks s0)(v := freshTrack Video), trackCount := Suc v\<rparr>
                  in if enableMicrophone then
                       s2\<lparr>pendingStarts := (pendingStarts s2)
                            (c := Some (AwaitingMicrophone v capturedPaused))\<rparr>
                     else startRecording_rest env v [] capturedPaused now s2))
      | _ \<Rightarrow> s)"

text \<open>
  What \<open>getUserMedia\<close> answered (lines 61 to 75): the ids of the audio tracks
  obtained, and the state. A denial is caught there and only clears the microphone flag.
\<close>

definition microphoneAnswer :: "start_env \<Rightarrow> hook \<Rightarrow> nat list \<times> hook" where
  "microphoneAnswer env s =
     (case userMedia env of
        MicDenied \<Rightarrow> ([], s\<lparr>isMicrophoneEnabled := False\<rparr>)
      | MicGranted n \<Rightarrow>
          (let ids = [trackCount s ..< trackCount s + n];
               s' = s\<lparr>tracks := (\<lambda>i. if i \<in> set ids then freshTrack Audio else tracks s i),
                      trackCount := trackCount s + n\<rparr>
           in (ids, if length ids > 0 then s'\<lparr>audioTrackRef := Some (trackCount s)\<rparr> else s')))"

text \<open>The continuation after \<open>getUserMedia\<close> has answered (lines 61 to 140).\<close>

definition startRecording_afterMicrophone :: "nat \<Rightarrow> start_env \<Rightarrow> int \<Rightarrow> hook \<Rightarrow> hook" where
  "startRecording_afterMicrophone c env now s =
     (case pendingStarts s c of
        Some (AwaitingMicrophone v capturedPaused) \<Rightarrow>
          (let s0 = s\<lparr>pendingStarts := (pendingStarts s)(c := None)\<rparr>;
               (audioIds, s3) = microphoneAnswer env s0
           in startRecording_rest env v audioIds capturedPaused now s3)
      | _ \<Rightarrow> s)"

text \<open>
  A call of \<open>startRecording\<close> during whose awaits no other handler runs: the three
  parts one after the other.
\<close>

definition startRecording :: "start_env \<Rightarrow> bool \<Rightarrow> int \<Rightarrow> hook \<Rightarrow> hook" where
  "startRecording env enableMicrophone now s =
     startRecording_afterMicrophone (startCount s) env now
       (startRecording_afterDisplay (startCount s) env now
          (startRecording_begin enableMicrophone s))"

subsection \<open>The encoder's event handlers and the interval callback\<close>

definition mediaRecorder_ondataavailable :: "blob option \<Rightarrow> hook \<Rightarrow> hook" where
  "mediaRecorder_ondataavailable d s =
     (case d of
        Some b \<Rightarrow> (if blobSize b > 0 then s\<lparr>chunksRef := chunksRef s @ [b]\<rparr> else s)
      | None \<Rightarrow> s)"

definition mediaRecorder_onstop :: "hook \<Rightarrow> hook" where
  "mediaRecorder_onstop s =
     (let s1 = s\<lparr>videoBlob := Some (newBlob (chunksRef s) ''video/webm''), chunksRef := []\<rparr>;
          s2 = (case streamRef s1 of
                  Some ids \<Rightarrow> s1\<lparr>tracks := stopTracks ids (tracks s1), streamRef := None\<rparr>
                | None \<Rightarrow> s1)
      in s2\<lparr>audioTrackRef := None\<rparr>)"

text \<open>The error handler takes the cause the encoder reports and does not read it.\<close>

definition mediaRecorder_onerror :: "string \<Rightarrow> hook \<Rightarrow> hook" where
  "mediaRecorder_onerror cause s = s\<lparr>error := Some ''Recording error occurred''\<rparr>"

definition timerTick :: "nat \<Rightarrow> int \<Rightarrow> hook \<Rightarrow> hook" where
  "timerTick t now s =
     (case intervals s t of
        None \<Rightarrow> s
      | Some capturedPaused \<Rightarrow>
          (if \<not> capturedPaused then s\<lparr>recordingTime := (now - startTimeRef s) div 1000\<rparr>
           else s))"

subsection \<open>The other operations\<close>

definition clearTimer :: "hook \<Rightarrow> hook" where
  "clearTimer s =
     (case timerRef s of
        Some t \<Rightarrow> s\<lparr>intervals := (intervals s)(t := None), timerRef := None\<rparr>
      | None \<Rightarrow> s)"

definition stopRecording :: "hook \<Rightarrow> hook" where
  "stopRecording s =
     (case mediaRecorderRef s of
        Some r \<Rightarrow>
          (if isRecording s then
             clearTimer (s\<lparr>encoders := setEncState r Inactive (encoders s),
                          isRecording := False, isPaused := False\<rparr>)
           else s)
      | None \<Rightarrow> s)"

definition pauseRecording :: "int \<Rightarrow> hook \<Rightarrow> hook" where
  "pauseRecording now s =
     (case mediaRecorderRef s of
        Some r \<Rightarrow>
          (if isRecording s \<and> \<not> isPaused s then
             s\<lparr>encoders := setEncState r Paused (encoders s),
               isPaused := True,
               pausedTimeRef := now - startTimeRef s\<rparr>
           else s)
      | None \<Rightarrow> s)"

definition resumeRecording :: "int \<Rightarrow> hook \<Rightarrow> hook" where
  "resumeRecording now s =
     (case mediaRecorderRef s of
        Some r \<Rightarrow>
          (if isRecording s \<and> isPaused s then
             s\<lparr>encoders := setEncState r Recording (encoders s),
               isPaused := False,
               startTimeRef := now - pausedTimeRef s,
               pausedTimeRef := 0\<rparr>
           else s)
      | None \<Rightarrow> s)"

definition resetRecording :: "hook \<Rightarrow> hook" where
  "resetRecording s =
     (let s1 = (case mediaRecorderRef s of
                  Some r \<Rightarrow> (if isRecording s
                             then s\<lparr>encoders := setEncState r Inactive (encoders s)\<rparr> else s)
                | None \<Rightarrow> s);
          s2 = (case streamRef s1 of
                  Some ids \<Rightarrow> s1\<lparr>tracks := stopTracks ids (tracks s1), streamRef := None\<rparr>
                | None \<Rightarrow> s1);
          s3 = clearTimer (s2\<lparr>audioTrackRef := None\<rparr>)
      in s3\<lparr>isRecording := False, isPaused := False, recordingTime := 0,
            videoBlob := None, error := None, isMicrophoneEnabled := True,
            chunksRef := [], pausedTimeRef := 0\<rparr>)"

definition toggleMicrophone :: "hook \<Rightarrow> hook" where
  "toggleMicrophone s =
     (if \<not> isRecording s then s
      else case audioTrackRef s of
             None \<Rightarrow> s
           | Some a \<Rightarrow>
               (let e = \<not> enabled (tracks s a)
                in s\<lparr>tracks := (tracks s)(a := (tracks s a)\<lparr>enabled := e\<rparr>),
                     isMicrophoneEnabled := e\<rparr>))"

subsection \<open>Runs of events\<close>

text \<open>
  \<open>Start\<close> is a call of \<open>startRecording\<close> that is not interrupted;
  \<open>StartCalled\<close>, \<open>DisplayAnswered\<close> and \<open>MicrophoneAnswered\<close> are its three
  parts as events of their own, between which any other event may come.
\<close>

datatype event =
    Start start_env bool int
  | StartCalled bool
  | DisplayAnswered nat start_env int
  | MicrophoneAnswered nat start_env int
  | Stop
  | PauseAt int
  | ResumeAt int
  | Reset
  | ToggleMic
  | DataAvailable "blob option"
  | EncoderStopped
  | EncoderError string
  | Tick nat int

fun step :: "event \<Rightarrow> hook \<Rightarrow> hook" where
  "step (Start env mic now) s = startRecording env mic now s"
| "step (StartCalled mic) s = startRecording_begin mic s"
| "step (DisplayAnswered c env now) s = startRecording_afterDisplay c env now s"
| "step (MicrophoneAnswered c env now) s = startRecording_afterMicrophone c env now s"
| "step Stop s = stopRecording s"
| "step (PauseAt now) s = pauseRecording now s"
| "step (ResumeAt now) s = resumeRecording now s"
| "step Reset s = resetRecording s"
| "step ToggleMic s = toggleMicrophone s"
| "step (DataAvailable d) s = mediaRecorder_ondataavailable d s"
| "step EncoderStopped s = mediaRecorder_onstop s"
| "step (EncoderError cause) s = mediaRecorder_onerror cause s"
| "step (Tick t now) s = timerTick t now s"

definition run :: "event list \<Rightarrow> hook \<Rightarrow> hook" where
  "run evs s = fold step evs s"

subsection \<open>Observations on a state, and sample answers of the browser\<close>

text \<open>
  The encoders that are not inactive, the tracks that have not been stopped, the calls
  of \<open>startRecording\<close> that are suspended, and the video tracks those calls hold.
\<close>

definition openEncoders :: "hook \<Rightarrow> nat list" where
  "openEncoders s = filter (\<lambda>i. encState (encoders s i) \<noteq> Inactive) [0..<encoderCount s]"

definition liveTracks :: "hook \<Rightarrow> nat list" where
  "liveTracks s = filter (\<lambda>i. live (tracks s i)) [0..<trackCount s]"

definition startsInFlight :: "hook \<Rightarrow> nat list" where
  "startsInFlight s = filter (\<lambda>c. pendingStarts s c \<noteq> None) [0..<startCount s]"

fun heldTrack :: "pending option \<Rightarrow> nat list" where
  "heldTrack (Some (AwaitingMicrophone v p)) = [v]"
| "heldTrack w = []"

definition tracksInFlight :: "hook \<Rightarrow> nat list" where
  "tracksInFlight s = concat (map (\<lambda>c. heldTrack (pendingStarts s c)) [0..<startCount s])"

text \<open>
  No session is open: nothing is being recorded, the stream has been released and no
  audio track is referenced. This is the state at mount, after the encoder's stop handler
  has run, after a reset, and after a start that was refused the display.
\<close>

definition noSession :: "hook \<Rightarrow> bool" where
  "noSession s \<longleftrightarrow> \<not> isRecording s \<and> streamRef s = None \<and> audioTrackRef s = None"

fun isStart :: "event \<Rightarrow> bool" where
  "isStart (Start env mic now) = True"
| "isStart (StartCalled mic) = True"
| "isStart e = False"

text \<open>
  A run in which every call of \<open>startRecording\<close> is made while no session is open
  and no earlier call is suspended.
\<close>

fun startsWhenIdle :: "event list \<Rightarrow> hook \<Rightarrow> bool" where
  "startsWhenIdle [] s = True"
| "startsWhenIdle (e # es) s =
     ((isStart e \<longrightarrow> noSession s \<and> startsInFlight s = []) \<and> startsWhenIdle es (step e s))"

definition allowAll :: start_env where
  "allowAll = \<lparr>displayMedia = None, userMedia = MicGranted 1,
     isTypeSupported = (\<lambda>_. True), encoderThrows = None\<rparr>"

definition micDenied :: start_env where
  "micDenied = \<lparr>displayMedia = None, userMedia = MicDenied,
     isTypeSupported = (\<lambda>_. True), encoderThrows = None\<rparr>"

definition displayDenied :: start_env where
  "displayDenied = \<lparr>displayMedia = Some (ErrorObject ''Permission denied''),
     userMedia = MicGranted 1, isTypeSupported = (\<lambda>_. True), encoderThrows = None\<rparr>"

definition encoderFails :: start_env where
  "encoderFails = \<lparr>displayMedia = None, userMedia = MicGranted 1,
     isTypeSupported = (\<lambda>_. False), encoderThrows = Some (ErrorObject ''NotSupportedError'')\<rparr>"

lemmas hook_defs = run_def startRecording_def startRecording_begin_def
  startRecording_afterDisplay_def startRecording_afterMicrophone_def startRecording_rest_def
  microphoneAnswer_def Let_def chooseMimeType_def
  freshTrack_def timerTick_def pauseRecording_def resumeRecording_def stopRecording_def
  clearTimer_def setEncState_def stopTracks_def mediaRecorder_onstop_def
  mediaRecorder_onerror_def mediaRecorder_ondataavailable_def toggleMicrophone_def
  resetRecording_def initialHook_def newBlob_def blobSize_def

section \<open>One session at a time\<close>

text \<open>
  \<open>startRecording\<close> does not look at the state it is called in and leaves no mark
  while it waits. The invariant below is what a caller gets who calls it only while no
  session is open and no earlier call is suspended: every encoder that is not inactive is
  the one the hook references and the hook is recording; every live track belongs to the
  stream the hook references or is the video track a suspended call holds; and a
  suspended call is the only one, with nothing recording and no stream referenced.
\<close>

definition oneSession :: "hook \<Rightarrow> bool" where
  "oneSession s \<longleftrightarrow>
     (\<forall>i. encState (encoders s i) \<noteq> Inactive \<longrightarrow> isRecording s \<and> mediaRecorderRef s = Some i) \<and>
     (\<forall>i. live (tracks s i) \<longrightarrow>
        (\<exists>ids. streamRef s = Some ids \<and> i \<in> set ids) \<or>
        (\<exists>c p. pendingStarts s c = Some (AwaitingMicrophone i p))) \<and>
     (\<forall>c. pendingStarts s c \<noteq> None \<longrightarrow>
        c < startCount s \<and> \<not> isRecording s \<and> streamRef s = None \<and>
        (\<forall>c'. pendingStarts s c' \<noteq> None \<longrightarrow> c' = c))"

lemma oneSession_initial: "oneSession initialHook"
  by (simp add: oneSession_def initialHook_def)

lemma startsInFlight_empty:
  assumes "oneSession s" and "startsInFlight s = []"
  shows "pendingStarts s c = None"
proof (rule ccontr)
  assume p: "pendingStarts s c \<noteq> None"
  with assms(1) have "c < startCount s"
    unfolding oneSession_def by blast
  with p have "c \<in> set (startsInFlight s)"
    by (simp add: startsInFlight_def)
  with assms(2) show False by simp
qed

lemma oneSession_begin:
  assumes "oneSession s" and "noSession s" and "startsInFlight s = []"
  shows "oneSession (startRecording_begin mic s)"
proof -
  have n: "pendingStarts s = (\<lambda>_. None)"
    by (rule ext) (rule startsInFlight_empty [OF assms(1,3)])
  have closed: "\<forall>i. encState (encoders s i) = Inactive"
    and dark: "\<forall>i. \<not> live (tracks s i)"
    using assms(1,2) by (auto simp: oneSession_def noSession_def n)
  show ?thesis
    using assms(2) closed dark
    by (simp add: oneSession_def noSession_def startRecording_begin_def n)
qed

lemma oneSession_rest:
  assumes "\<forall>i. encState (encoders s i) = Inactive"
    and "\<forall>i. live (tracks s i) \<longrightarrow> i = v \<or> i \<in> set audioIds"
    and "\<forall>c. pendingStarts s c = None"
  shows "oneSession (startRecording_rest env v audioIds p now s)"
  using assms
  by (auto simp: oneSession_def startRecording_rest_def Let_def split: option.splits)

lemma oneSession_afterDisplay:
  assumes "oneSession s"
  shows "oneSession (startRecording_afterDisplay c env now s)"
proof (cases "pendingStarts s c")
  case None
  then show ?thesis using assms by (simp add: startRecording_afterDisplay_def)
next
  case (Some w)
  show ?thesis
  proof (cases w)
    case (AwaitingMicrophone v p)
    with Some show ?thesis using assms by (simp add: startRecording_afterDisplay_def)
  next
    case (AwaitingDisplay mic p)
    have only: "\<And>c'. pendingStarts s c' \<noteq> None \<Longrightarrow> c' = c"
      and idle: "\<not> isRecording s" "streamRef s = None" "c < startCount s"
      using assms Some by (auto simp: oneSession_def)
    have others: "\<And>c'. c' \<noteq> c \<Longrightarrow> pendingStarts s c' = None"
      using only by blast
    have closed: "\<And>i. encState (encoders s i) = Inactive"
      using assms idle by (auto simp: oneSession_def)
    have dark: "\<And>i. \<not> live (tracks s i)"
    proof
      fix i assume "live (tracks s i)"
      with assms idle obtain c' q where "pendingStarts s c' = Some (AwaitingMicrophone i q)"
        by (auto simp: oneSession_def)
      with only [of c'] Some AwaitingDisplay show False by simp
    qed
    show ?thesis
    proof (cases "displayMedia env")
      case (Some e)
      then show ?thesis
        using \<open>pendingStarts s c = Some w\<close> AwaitingDisplay others closed dark idle
        by (auto simp: oneSession_def startRecording_afterDisplay_def Let_def)
    next
      case None
      show ?thesis
      proof (cases mic)
        case True
        then show ?thesis
          using \<open>pendingStarts s c = Some w\<close> AwaitingDisplay None others closed dark idle
          by (auto simp: oneSession_def startRecording_afterDisplay_def Let_def freshTrack_def)
      next
        case False
        have "oneSession (startRecording_rest env (trackCount s) [] p now
                (s\<lparr>pendingStarts := (pendingStarts s)(c := None),
                   tracks := (tracks s)(trackCount s := freshTrack Video),
                   trackCount := Suc (trackCount s)\<rparr>))"
          using others closed dark by (intro oneSession_rest) auto
        then show ?thesis
          using \<open>pendingStarts s c = Some w\<close> AwaitingDisplay None False
          by (simp add: startRecording_afterDisplay_def Let_def)
      qed
    qed
  qed
qed

lemma oneSession_afterMicrophone:
  assumes "oneSession s"
  shows "oneSession (startRecording_afterMicrophone c env now s)"
proof (cases "pendingStarts s c")
  case None
  then show ?thesis using assms by (simp add: startRecording_afterMicrophone_def)
next
  case (Some w)
  show ?thesis
  proof (cases w)
    case (AwaitingDisplay mic p)
    with Some show ?thesis using assms by (simp add: startRecording_afterMicrophone_def)
  next
    case (AwaitingMicrophone v p)
    have only: "\<And>c'. pendingStarts s c' \<noteq> None \<Longrightarrow> c' = c"
      and idle: "\<not> isRecording s" "streamRef s = None"
      using assms Some by (auto simp: oneSession_def)
    have others: "\<And>c'. c' \<noteq> c \<Longrightarrow> pendingStarts s c' = None"
      using only by blast
    have closed: "\<And>i. encState (encoders s i) = Inactive"
      using assms idle by (auto simp: oneSession_def)
    have dark: "\<And>i. live (tracks s i) \<Longrightarrow> i = v"
    proof -
      fix i assume "live (tracks s i)"
      with assms idle obtain c' q where q: "pendingStarts s c' = Some (AwaitingMicrophone i q)"
        by (auto simp: oneSession_def)
      with only [of c'] have "c' = c" by simp
      with q Some AwaitingMicrophone show "i = v" by simp
    qed
    obtain audioIds s3 where m: "microphoneAnswer env
        (s\<lparr>pendingStarts := (pendingStarts s)(c := None)\<rparr>) = (audioIds, s3)"
      by (cases "microphoneAnswer env (s\<lparr>pendingStarts := (pendingStarts s)(c := None)\<rparr>)")
    have "oneSession (startRecording_rest env v audioIds p now s3)"
    proof (rule oneSession_rest)
      show "\<forall>i. encState (encoders s3 i) = Inactive"
        using m closed by (auto simp: microphoneAnswer_def Let_def split: mic_result.splits if_splits)
      show "\<forall>i. live (tracks s3 i) \<longrightarrow> i = v \<or> i \<in> set audioIds"
        using m dark
        by (auto simp: microphoneAnswer_def Let_def freshTrack_def split: mic_result.splits if_splits)
      show "\<forall>c. pendingStarts s3 c = None"
        using m others
        by (auto simp: microphoneAnswer_def Let_def split: mic_result.splits if_splits)
    qed
    then show ?thesis
      using Some AwaitingMicrophone m by (simp add: startRecording_afterMicrophone_def)
  qed
qed

lemma oneSession_start:
  "oneSession s \<Longrightarrow> noSession s \<Longrightarrow> startsInFlight s = [] \<Longrightarrow>
   oneSession (startRecording env mic now s)"
  unfolding startRecording_def
  by (intro oneSession_afterMicrophone oneSession_afterDisplay oneSession_begin)

lemma oneSession_stop: "oneSession s \<Longrightarrow> oneSession (stopRecording s)"
  by (auto simp: oneSession_def stopRecording_def clearTimer_def setEncState_def
      split: option.splits if_splits)

lemma oneSession_pause: "oneSession s \<Longrightarrow> oneSession (pauseRecording now s)"
  by (auto simp: oneSession_def pauseRecording_def setEncState_def
      split: option.splits if_splits)

lemma oneSession_resume: "oneSession s \<Longrightarrow> oneSession (resumeRecording now s)"
  by (auto simp: oneSession_def resumeRecording_def setEncState_def
      split: option.splits if_splits)

lemma oneSession_reset: "oneSession s \<Longrightarrow> oneSession (resetRecording s)"
  unfolding oneSession_def resetRecording_def clearTimer_def setEncState_def
      stopTracks_def Let_def
  by (auto split: option.splits if_splits)

lemma oneSession_toggle: "oneSession s \<Longrightarrow> oneSession (toggleMicrophone s)"
  by (auto simp: oneSession_def toggleMicrophone_def Let_def split: option.splits if_splits)

lemma oneSession_data: "oneSession s \<Longrightarrow> oneSession (mediaRecorder_ondataavailable d s)"
  by (auto simp: oneSession_def mediaRecorder_ondataavailable_def
      split: option.splits if_splits)

lemma oneSession_onstop: "oneSession s \<Longrightarrow> oneSession (mediaRecorder_onstop s)"
  unfolding oneSession_def mediaRecorder_onstop_def stopTracks_def Let_def
  by (auto split: option.splits if_splits)

lemma oneSession_onerror: "oneSession s \<Longrightarrow> oneSession (mediaRecorder_onerror c s)"
  by (auto simp: oneSession_def mediaRecorder_onerror_def)

lemma oneSession_tick: "oneSession s \<Longrightarrow> oneSession (timerTick t now s)"
  by (auto simp: oneSession_def timerTick_def split: option.splits)

lemma oneSession_step:
  "oneSession s \<Longrightarrow> (isStart e \<longrightarrow> noSession s \<and> startsInFlight s = []) \<Longrightarrow>
   oneSession (step e s)"
  by (cases e) (simp_all add: oneSession_start oneSession_begin oneSession_afterDisplay
      oneSession_afterMicrophone oneSession_stop oneSession_pause
      oneSession_resume oneSession_reset oneSession_toggle oneSession_data oneSession_onstop
      oneSession_onerror oneSession_tick)

lemma oneSession_run:
  "oneSession s \<Longrightarrow> startsWhenIdle evs s \<Longrightarrow> oneSession (run evs s)"
  by (induction evs arbitrary: s) (simp_all add: run_def oneSession_step)

lemma filter_upt_le_one:
  "(\<forall>i. P i \<longrightarrow> i = r) \<Longrightarrow> length (filter P [0..<n]) \<le> 1"
proof (induction n)
  case 0
  then show ?case by simp
next
  case (Suc n)
  show ?case
  proof (cases "P n")
    case True
    with Suc.prems have "n = r" by blast
    have "filter P [0..<n] = []"
      using Suc.prems \<open>n = r\<close> by (auto simp: filter_empty_conv)
    then show ?thesis by simp
  next
    case False
    then show ?thesis using Suc by simp
  qed
qed

lemma oneSession_openEncoders: "oneSession s \<Longrightarrow> length (openEncoders s) \<le> 1"
proof -
  assume a: "oneSession s"
  show ?thesis
  proof (cases "mediaRecorderRef s")
    case None
    with a have "\<forall>i. encState (encoders s i) \<noteq> Inactive \<longrightarrow> i = 0"
      by (auto simp: oneSession_def)
    then show ?thesis unfolding openEncoders_def by (rule filter_upt_le_one)
  next
    case (Some r)
    with a have "\<forall>i. encState (encoders s i) \<noteq> Inactive \<longrightarrow> i = r"
      by (auto simp: oneSession_def)
    then show ?thesis unfolding openEncoders_def by (rule filter_upt_le_one)
  qed
qed

lemma oneSession_startsInFlight: "oneSession s \<Longrightarrow> length (startsInFlight s) \<le> 1"
proof (cases "\<exists>c. pendingStarts s c \<noteq> None")
  case True
  assume a: "oneSession s"
  from True obtain c where "pendingStarts s c \<noteq> None" by blast
  with a have "\<forall>c'. pendingStarts s c' \<noteq> None \<longrightarrow> c' = c"
    by (auto simp: oneSession_def)
  then show ?thesis unfolding startsInFlight_def by (rule filter_upt_le_one)
next
  case False
  then show ?thesis by (simp add: startsInFlight_def)
qed

lemma oneSession_liveTracks:
  assumes "oneSession s" and "i \<in> set (liveTracks s)"
  shows "(\<exists>ids. streamRef s = Some ids \<and> i \<in> set ids) \<or>
         (streamRef s = None \<and> i \<in> set (tracksInFlight s))"
proof -
  from assms(2) have l: "live (tracks s i)" by (simp add: liveTracks_def)
  show ?thesis
  proof (cases "\<exists>ids. streamRef s = Some ids \<and> i \<in> set ids")
    case True
    then show ?thesis by blast
  next
    case False
    with assms(1) l obtain c p where c: "pendingStarts s c = Some (AwaitingMicrophone i p)"
      by (auto simp: oneSession_def)
    with assms(1) have "c < startCount s" "streamRef s = None"
      by (auto simp: oneSession_def)
    moreover from c have "i \<in> set (heldTrack (pendingStarts s c))" by simp
    ultimately show ?thesis
      by (auto simp: tracksInFlight_def)
  qed
qed

text \<open>
  C1, as the code has it. A start issued while a session is active is neither rejected nor
  a reset: after two successful starts in a row two encoders are recording and the tracks
  of both streams are live, while the hook references only the second stream. The same
  happens when the second call is made while the first is still waiting for the display,
  with no session open yet.
\<close>

theorem start_while_active_opens_second_session:
  "isRecording (run [Start allowAll True 0] initialHook) \<and>
   openEncoders (run [Start allowAll True 0, Start allowAll True 5000] initialHook) = [0, 1] \<and>
   liveTracks (run [Start allowAll True 0, Start allowAll True 5000] initialHook) = [0, 1, 2, 3] \<and>
   streamRef (run [Start allowAll True 0, Start allowAll True 5000] initialHook) = Some [2, 3] \<and>
   error (run [Start allowAll True 0, Start allowAll True 5000] initialHook) = None \<and>
   noSession (run [StartCalled True] initialHook) \<and>
   openEncoders (run [StartCalled True, StartCalled True,
      DisplayAnswered 0 allowAll 3000, MicrophoneAnswered 0 allowAll 4000,
      DisplayAnswered 1 allowAll 5000, MicrophoneAnswered 1 allowAll 6000] initialHook) = [0, 1] \<and>
   liveTracks (run [StartCalled True, StartCalled True,
      DisplayAnswered 0 allowAll 3000, MicrophoneAnswered 0 allowAll 4000,
      DisplayAnswered 1 allowAll 5000, MicrophoneAnswered 1 allowAll 6000] initialHook)
     = [0, 1, 2, 3]"
  by (simp add: hook_defs allowAll_def openEncoders_def liveTracks_def noSession_def
      upt_conv_Cons)

text \<open>
  C1, amended. In every state reached from the initial one by a run in which every call
  of \<open>startRecording\<close> is made while no session is open and no earlier call is
  suspended, whatever other handlers run between the awaits of a call: at most one encoder
  is open, at most one call is suspended, and every live track belongs to the one stream
  the hook references or, with no stream referenced, is the video track the suspended call
  holds.
\<close>

theorem single_session:
  assumes "startsWhenIdle evs initialHook"
  shows "length (openEncoders (run evs initialHook)) \<le> 1 \<and>
         length (startsInFlight (run evs initialHook)) \<le> 1 \<and>
         (\<forall>i \<in> set (liveTracks (run evs initialHook)).
            (\<exists>ids. streamRef (run evs initialHook) = Some ids \<and> i \<in> set ids) \<or>
            (streamRef (run evs initialHook) = None \<and>
             i \<in> set (tracksInFlight (run evs initialHook))))"
proof -
  have inv: "oneSession (run evs initialHook)"
    using oneSession_initial assms by (rule oneSession_run)
  show ?thesis
    using oneSession_openEncoders [OF inv] oneSession_startsInFlight [OF inv]
      oneSession_liveTracks [OF inv]
    by blast
qed

definition sampleRun :: "event list" where
  "sampleRun = [Start allowAll True 0, Tick 0 1000, PauseAt 1500, ResumeAt 4000, Stop,
     DataAvailable (Some \<lparr>blobBytes = [1, 2], blobType = ''video/webm''\<rparr>), EncoderStopped,
     StartCalled True, Reset, DisplayAnswered 1 micDenied 8000, ToggleMic,
     MicrophoneAnswered 1 micDenied 9000]"

lemma sampleRun_starts: "startsWhenIdle sampleRun initialHook"
  by (simp add: sampleRun_def hook_defs allowAll_def micDenied_def noSession_def
      startsInFlight_def upt_conv_Cons)

lemma sampleRun_state:
  "openEncoders (run sampleRun initialHook) = [1] \<and>
   startsInFlight (run sampleRun initialHook) = [] \<and>
   liveTracks (run sampleRun initialHook) = [2] \<and>
   streamRef (run sampleRun initialHook) = Some [2]"
  by (simp add: sampleRun_def hook_defs allowAll_def micDenied_def openEncoders_def
      liveTracks_def startsInFlight_def upt_conv_Cons)

theorem single_session_witness:
  "startsWhenIdle sampleRun initialHook \<and>
   length (openEncoders (run sampleRun initialHook)) \<le> 1 \<and>
   length (startsInFlight (run sampleRun initialHook)) \<le> 1 \<and>
   liveTracks (run sampleRun initialHook) = [2] \<and>
   streamRef (run sampleRun initialHook) = Some [2]"
  using single_session [OF sampleRun_starts] sampleRun_starts sampleRun_state by simp

section \<open>Elapsed time across pause and resume\<close>

text \<open>
  C2, as the code has it. The interval callback tests the \<open>isPaused\<close> it captured when
  the recording started, which is false, so it goes on computing the time since the last
  anchor while the session is paused. Recording from 0 ms, paused at 1500 ms: the report
  is 1 at the pause, 5 after the tick at 5000 ms with the session still paused, and a stop
  then leaves 5, for 1.5 seconds spent recording. A stop while paused also leaves the
  frozen 1500 ms in \<open>pausedTimeRef\<close>, and the next start anchors on it: a second
  recording started at 10000 ms reports 2 at its first tick, one second in.
\<close>

theorem paused_time_keeps_running:
  "recordingTime (run [Start allowAll False 0, Tick 0 1000, PauseAt 1500] initialHook) = 1 \<and>
   isPaused (run [Start allowAll False 0, Tick 0 1000, PauseAt 1500, Tick 0 2000,
      Tick 0 3000, Tick 0 4000, Tick 0 5000] initialHook) \<and>
   recordingTime (run [Start allowAll False 0, Tick 0 1000, PauseAt 1500, Tick 0 2000,
      Tick 0 3000, Tick 0 4000, Tick 0 5000] initialHook) = 5 \<and>
   recordingTime (run [Start allowAll False 0, Tick 0 1000, PauseAt 1500, Tick 0 2000,
      Tick 0 3000, Tick 0 4000, Tick 0 5000, Stop] initialHook) = 5 \<and>
   recordingTime (run [Start allowAll False 0, Tick 0 1000, PauseAt 1500, Stop,
      EncoderStopped, Start allowAll False 10000, Tick 1 11000] initialHook) = 2"
  by (simp add: hook_defs allowAll_def)

section \<open>An encoder error\<close>

text \<open>
  C3, as the code has it. After an encoder error in a running session the error shown is
  not the reported cause, the session is still recording and both tracks are still live.
\<close>

theorem encoder_error_keeps_session:
  "error (run [Start allowAll True 0, EncoderError ''device lost''] initialHook)
     \<noteq> Some ''device lost'' \<and>
   isRecording (run [Start allowAll True 0, EncoderError ''device lost''] initialHook) \<and>
   liveTracks (run [Start allowAll True 0, EncoderError ''device lost''] initialHook) = [0, 1]"
  by (simp add: hook_defs allowAll_def liveTracks_def upt_conv_Cons)

text \<open>
  C3, amended. Whatever cause the encoder reports, the error handler records the fixed
  message and changes nothing else: the state after it is the state before it with that
  error. The tracks of the stream the hook references are stopped by the encoder's stop
  handler when it runs afterwards, and by a reset.
\<close>

theorem encoder_error_effect:
  "mediaRecorder_onerror cause s = s\<lparr>error := Some ''Recording error occurred''\<rparr> \<and>
   (\<forall>ids. streamRef s = Some ids \<longrightarrow>
      (\<forall>i \<in> set ids. \<not> live (tracks (mediaRecorder_onstop (mediaRecorder_onerror cause s)) i)) \<and>
      (\<forall>i \<in> set ids. \<not> live (tracks (resetRecording (mediaRecorder_onerror cause s)) i)))"
  by (auto simp: mediaRecorder_onerror_def mediaRecorder_onstop_def resetRecording_def
      stopTracks_def clearTimer_def Let_def split: option.splits)

theorem encoder_error_effect_witness:
  "streamRef (startRecording allowAll True 0 initialHook) = Some [0, 1] \<and>
   (0::nat) \<in> set [0, 1] \<and>
   mediaRecorder_onerror ''device lost'' (startRecording allowAll True 0 initialHook)
     = (startRecording allowAll True 0 initialHook)\<lparr>error := Some ''Recording error occurred''\<rparr> \<and>
   \<not> live (tracks (mediaRecorder_onstop (mediaRecorder_onerror ''device lost''
        (startRecording allowAll True 0 initialHook))) 0) \<and>
   \<not> live (tracks (resetRecording (mediaRecorder_onerror ''device lost''
        (startRecording allowAll True 0 initialHook))) 0)"
proof -
  have s: "streamRef (startRecording allowAll True 0 initialHook) = Some [0, 1]"
    by (simp add: hook_defs allowAll_def)
  note t = encoder_error_effect [of "''device lost''" "startRecording allowAll True 0 initialHook"]
  from t have e: "mediaRecorder_onerror ''device lost'' (startRecording allowAll True 0 initialHook)
     = (startRecording allowAll True 0 initialHook)\<lparr>error := Some ''Recording error occurred''\<rparr>"
    by (rule conjunct1)
  from t s have "(\<forall>i \<in> set [0, 1]. \<not> live (tracks (mediaRecorder_onstop (mediaRecorder_onerror
        ''device lost'' (startRecording allowAll True 0 initialHook))) i)) \<and>
      (\<forall>i \<in> set [0, 1]. \<not> live (tracks (resetRecording (mediaRecorder_onerror
        ''device lost'' (startRecording allowAll True 0 initialHook))) i))"
    by blast
  with s e show ?thesis by simp
qed

section \<open>The segment buffer\<close>

text \<open>The segment an event delivers, and the events that leave the buffer in place.\<close>

fun eventData :: "event \<Rightarrow> blob list" where
  "eventData (DataAvailable (Some b)) = [b]"
| "eventData e = []"

definition delivered :: "event list \<Rightarrow> blob list" where
  "delivered evs = concat (map eventData evs)"

fun keepsBuffer :: "event \<Rightarrow> bool" where
  "keepsBuffer (Start env mic now) = False"
| "keepsBuffer (StartCalled mic) = False"
| "keepsBuffer Reset = False"
| "keepsBuffer EncoderStopped = False"
| "keepsBuffer e = True"

lemma chunksRef_rest:
  "chunksRef (startRecording_rest env v audioIds p now s) = chunksRef s"
  by (simp add: startRecording_rest_def Let_def split: option.splits)

lemma chunksRef_afterDisplay:
  "chunksRef (startRecording_afterDisplay c env now s) = chunksRef s"
  by (simp add: startRecording_afterDisplay_def chunksRef_rest Let_def
      split: option.splits pending.splits)

lemma chunksRef_afterMicrophone:
  "chunksRef (startRecording_afterMicrophone c env now s) = chunksRef s"
  by (simp add: startRecording_afterMicrophone_def microphoneAnswer_def chunksRef_rest Let_def
      split: option.splits pending.splits mic_result.splits)

lemma chunksRef_step:
  "keepsBuffer e \<Longrightarrow>
   chunksRef (step e s) = chunksRef s @ filter (\<lambda>b. blobSize b > 0) (eventData e)"
proof (cases e)
  case (DataAvailable d)
  then show ?thesis
    by (cases d) (simp_all add: mediaRecorder_ondataavailable_def)
qed (auto simp: stopRecording_def pauseRecording_def resumeRecording_def toggleMicrophone_def
      mediaRecorder_onerror_def timerTick_def clearTimer_def chunksRef_afterDisplay
      chunksRef_afterMicrophone Let_def split: option.splits)

lemma chunksRef_run:
  "\<forall>e \<in> set evs. keepsBuffer e \<Longrightarrow>
   chunksRef (run evs s) = chunksRef s @ filter (\<lambda>b. blobSize b > 0) (delivered evs)"
proof (induction evs arbitrary: s)
  case Nil
  then show ?case by (simp add: run_def delivered_def)
next
  case (Cons e evs)
  have "run (e # evs) s = run evs (step e s)" by (simp add: run_def)
  with Cons chunksRef_step [of e s] show ?case
    by (simp add: delivered_def)
qed

text \<open>
  C4. Take a state whose buffer is empty (as it is after a start, after the stop handler
  and after a reset) and any sequence of events that contains no start, reset or encoder
  stop: segments delivered while recording or paused, and after \<open>stopRecording\<close> was
  called, between any other operations (the continuations of a call of start after its
  awaits among them). The artifact the stop handler then builds is the
  concatenation, in order of delivery, of exactly the segments of non-zero size, and the
  buffer is empty afterwards.
\<close>

theorem finalize_concatenates:
  assumes "\<forall>e \<in> set evs. keepsBuffer e" and "chunksRef s = []"
  shows "videoBlob (mediaRecorder_onstop (run evs s)) =
           Some (newBlob (filter (\<lambda>b. blobSize b > 0) (delivered evs)) ''video/webm'') \<and>
         chunksRef (mediaRecorder_onstop (run evs s)) = []"
  using chunksRef_run [OF assms(1), of s] assms(2)
  by (simp add: mediaRecorder_onstop_def Let_def split: option.splits)

definition segmentRun :: "event list" where
  "segmentRun = [DataAvailable (Some \<lparr>blobBytes = [1, 2, 3], blobType = ''video/webm''\<rparr>),
     PauseAt 1500,
     DataAvailable (Some \<lparr>blobBytes = [], blobType = ''video/webm''\<rparr>),
     ResumeAt 2500, DataAvailable None, Stop,
     DataAvailable (Some \<lparr>blobBytes = [4, 5], blobType = ''video/webm''\<rparr>)]"

theorem finalize_concatenates_witness:
  "list_all keepsBuffer segmentRun \<and>
   chunksRef (startRecording allowAll True 0 initialHook) = [] \<and>
   videoBlob (mediaRecorder_onstop (run segmentRun (startRecording allowAll True 0 initialHook)))
     = Some \<lparr>blobBytes = [1, 2, 3, 4, 5], blobType = ''video/webm''\<rparr> \<and>
   chunksRef (mediaRecorder_onstop (run segmentRun (startRecording allowAll True 0 initialHook)))
     = []"
proof -
  have k: "\<forall>e \<in> set segmentRun. keepsBuffer e"
    by (simp add: segmentRun_def)
  have c: "chunksRef (startRecording allowAll True 0 initialHook) = []"
    by (simp add: hook_defs allowAll_def)
  have d: "newBlob (filter (\<lambda>b. blobSize b > 0) (delivered segmentRun)) ''video/webm''
             = \<lparr>blobBytes = [1, 2, 3, 4, 5], blobType = ''video/webm''\<rparr>"
    by (simp add: segmentRun_def delivered_def newBlob_def blobSize_def)
  have l: "list_all keepsBuffer segmentRun"
    by (simp add: segmentRun_def)
  show ?thesis
    using finalize_concatenates [OF k c] l c d by simp
qed

section \<open>Microphone denial\<close>

text \<open>
  C6, as the code has it. The hook has one microphone flag. It is set from the request
  and cleared again when the microphone is denied, so nothing in the state says that a
  microphone was requested: a start with the microphone requested and denied ends in the
  very state of a start without microphone. And \<open>startRecording\<close> never clears
  \<open>audioTrackRef\<close>: after a start whose encoder could not be constructed, a second
  start whose microphone is denied still references the audio track of the first.
\<close>

theorem microphone_denial_leaves_no_trace:
  "\<not> isMicrophoneEnabled (startRecording micDenied True 0 initialHook) \<and>
   startRecording micDenied True 0 initialHook = startRecording micDenied False 0 initialHook \<and>
   \<not> isRecording (run [Start encoderFails True 0] initialHook) \<and>
   audioTrackRef (run [Start encoderFails True 0, Start micDenied True 5000] initialHook)
     = Some 1"
  by (simp add: hook_defs micDenied_def encoderFails_def)

text \<open>
  C6, amended. When a microphone is requested and the audio capture is denied, the start
  does not fail. The denial is caught and clears the hook's microphone flag, which is all
  the caller learns; the call acquires no audio track, so that none is referenced
  afterwards when none was referenced before; and it goes on to record the video track
  alone: stream, encoder, flags, time anchor and timer are set as for any start and no
  error is set. The hook keeps no record of the request: the state is the one a start
  without microphone ends in. A rejected display capture ends the call with the error of
  the rejection and opens nothing. The first two parts are the continuations after each
  await, in whatever state they run; the last three are a call that is not interrupted.
\<close>

theorem microphone_denial_degrades:
  "(pendingStarts s c = Some (AwaitingMicrophone v p) \<and> userMedia env = MicDenied \<and>
      encoderThrows env = None \<longrightarrow>
      startRecording_afterMicrophone c env now s =
        s\<lparr>pendingStarts := (pendingStarts s)(c := None),
          isMicrophoneEnabled := False,
          streamRef := Some [v],
          encoders := (encoders s)(encoderCount s :=
            \<lparr>encStream = [v], encMime = chooseMimeType (isTypeSupported env),
             encState = Recording\<rparr>),
          encoderCount := Suc (encoderCount s),
          mediaRecorderRef := Some (encoderCount s),
          isRecording := True, isPaused := False,
          startTimeRef := now - pausedTimeRef s, pausedTimeRef := 0,
          intervals := (intervals s)(intervalCount s := Some p),
          intervalCount := Suc (intervalCount s),
          timerRef := Some (intervalCount s)\<rparr>) \<and>
   (\<forall>e. pendingStarts s c = Some (AwaitingDisplay mic p) \<and> displayMedia env = Some e \<longrightarrow>
      startRecording_afterDisplay c env now s =
        s\<lparr>pendingStarts := (pendingStarts s)(c := None),
          error := Some (startErrorMessage e)\<rparr>) \<and>
   (displayMedia env = None \<and> userMedia env = MicDenied \<and> encoderThrows env = None \<longrightarrow>
      startRecording env True now s =
        s\<lparr>error := None, chunksRef := [],
          pendingStarts := (pendingStarts s)(startCount s := None),
          startCount := Suc (startCount s),
          tracks := (tracks s)(trackCount s := freshTrack Video),
          trackCount := Suc (trackCount s),
          isMicrophoneEnabled := False,
          streamRef := Some [trackCount s],
          encoders := (encoders s)(encoderCount s :=
            \<lparr>encStream = [trackCount s], encMime = chooseMimeType (isTypeSupported env),
             encState = Recording\<rparr>),
          encoderCount := Suc (encoderCount s),
          mediaRecorderRef := Some (encoderCount s),
          isRecording := True, isPaused := False,
          startTimeRef := now - pausedTimeRef s, pausedTimeRef := 0,
          intervals := (intervals s)(intervalCount s := Some (isPaused s)),
          intervalCount := Suc (intervalCount s),
          timerRef := Some (intervalCount s)\<rparr>) \<and>
   (displayMedia env = None \<and> userMedia env = MicDenied \<longrightarrow>
      startRecording env True now s = startRecording env False now s) \<and>
   (\<forall>e. displayMedia env = Some e \<longrightarrow>
      startRecording env mic now s =
        s\<lparr>error := Some (startErrorMessage e), chunksRef := [],
          isMicrophoneEnabled := mic,
          pendingStarts := (pendingStarts s)(startCount s := None),
          startCount := Suc (startCount s)\<rparr>)"
  by (simp add: startRecording_def startRecording_begin_def startRecording_afterDisplay_def
      startRecording_afterMicrophone_def startRecording_rest_def microphoneAnswer_def Let_def
      split: option.splits)

theorem microphone_denial_degrades_witness:
  "(displayMedia micDenied = None \<and> userMedia micDenied = MicDenied \<and>
      encoderThrows micDenied = None) \<and>
   isRecording (startRecording micDenied True 0 initialHook) \<and>
   error (startRecording micDenied True 0 initialHook) = None \<and>
   audioTrackRef (startRecording micDenied True 0 initialHook) = None \<and>
   \<not> isMicrophoneEnabled (startRecording micDenied True 0 initialHook) \<and>
   streamRef (startRecording micDenied True 0 initialHook) = Some [0] \<and>
   kind (tracks (startRecording micDenied True 0 initialHook) 0) = Video \<and>
   displayMedia displayDenied = Some (ErrorObject ''Permission denied'') \<and>
   error (startRecording displayDenied True 0 initialHook) = Some ''Permission denied'' \<and>
   \<not> isRecording (startRecording displayDenied True 0 initialHook) \<and>
   streamRef (startRecording displayDenied True 0 initialHook) = None \<and>
   trackCount (startRecording displayDenied True 0 initialHook) = 0"
  using microphone_denial_degrades [of initialHook "0" "0" False micDenied 0 True]
    microphone_denial_degrades [of initialHook "0" "0" False displayDenied 0 True]
  by (simp add: micDenied_def displayDenied_def initialHook_def startErrorMessage_def
      freshTrack_def)

section \<open>Muting and unmuting\<close>

text \<open>
  C7, as the code has it. \<open>toggleMicrophone\<close> sets the flag it shows from the track,
  and \<open>startRecording\<close> sets the flag from its argument without clearing
  \<open>audioTrackRef\<close>. A start with microphone followed by a start without it (while
  recording, or after the first could not construct its encoder, so that nothing was
  recording when the second was called) leaves an enabled audio track referenced with the
  flag off; two toggles then turn the flag on.
\<close>

theorem toggle_twice_changes_flag:
  "isRecording (run [Start allowAll True 0, Start allowAll False 5000] initialHook) \<and>
   audioTrackRef (run [Start allowAll True 0, Start allowAll False 5000] initialHook) = Some 1 \<and>
   \<not> isMicrophoneEnabled (run [Start allowAll True 0, Start allowAll False 5000] initialHook) \<and>
   isMicrophoneEnabled (run [Start allowAll True 0, Start allowAll False 5000,
      ToggleMic, ToggleMic] initialHook) \<and>
   \<not> isRecording (run [Start encoderFails True 0] initialHook) \<and>
   isRecording (run [Start encoderFails True 0, Start allowAll False 5000] initialHook) \<and>
   audioTrackRef (run [Start encoderFails True 0, Start allowAll False 5000] initialHook) = Some 1 \<and>
   \<not> isMicrophoneEnabled (run [Start encoderFails True 0, Start allowAll False 5000] initialHook) \<and>
   isMicrophoneEnabled (run [Start encoderFails True 0, Start allowAll False 5000,
      ToggleMic, ToggleMic] initialHook)"
  by (simp add: hook_defs allowAll_def encoderFails_def)

text \<open>
  C7, amended. For every state of the hook: when it is not recording or references no
  audio track, \<open>toggleMicrophone\<close> returns the state as it was. When it is recording
  and references an audio track, one call flips the track's enabled flag, sets the flag
  shown to the track's new value and changes nothing else; two calls in a row give back
  the state they started from except that the flag shown now equals the track's enabled
  flag. So the track's flag always returns to its original value, and the flag shown
  returns to its own exactly when it agreed with the track's beforehand.
\<close>

theorem toggleMicrophone_effect:
  "(\<not> isRecording s \<or> audioTrackRef s = None \<longrightarrow> toggleMicrophone s = s) \<and>
   (\<forall>a. isRecording s \<and> audioTrackRef s = Some a \<longrightarrow>
      toggleMicrophone s =
        s\<lparr>tracks := (tracks s)(a := (tracks s a)\<lparr>enabled := \<not> enabled (tracks s a)\<rparr>),
          isMicrophoneEnabled := \<not> enabled (tracks s a)\<rparr> \<and>
      toggleMicrophone (toggleMicrophone s) = s\<lparr>isMicrophoneEnabled := enabled (tracks s a)\<rparr> \<and>
      enabled (tracks (toggleMicrophone (toggleMicrophone s)) a) = enabled (tracks s a) \<and>
      (isMicrophoneEnabled (toggleMicrophone (toggleMicrophone s)) = isMicrophoneEnabled s
         \<longleftrightarrow> isMicrophoneEnabled s = enabled (tracks s a)))"
  by (auto simp: toggleMicrophone_def Let_def split: option.splits)

definition mutedRun :: "event list" where
  "mutedRun = [Start allowAll True 0, Tick 0 1000, ToggleMic, PauseAt 1500]"

lemma mutedRun_state:
  "isRecording (run mutedRun initialHook) \<and> audioTrackRef (run mutedRun initialHook) = Some 1 \<and>
   \<not> isMicrophoneEnabled (run mutedRun initialHook) \<and>
   \<not> enabled (tracks (run mutedRun initialHook) 1)"
  by (simp add: mutedRun_def hook_defs allowAll_def)

theorem toggleMicrophone_effect_witness:
  "isRecording (run mutedRun initialHook) \<and> audioTrackRef (run mutedRun initialHook) = Some 1 \<and>
   enabled (tracks (toggleMicrophone (run mutedRun initialHook)) 1) \<and>
   isMicrophoneEnabled (toggleMicrophone (run mutedRun initialHook)) \<and>
   toggleMicrophone (toggleMicrophone (run mutedRun initialHook)) = run mutedRun initialHook \<and>
   audioTrackRef initialHook = None \<and> toggleMicrophone initialHook = initialHook"
proof -
  note m = mutedRun_state
  note t = toggleMicrophone_effect [of "run mutedRun initialHook"]
  from t m have one: "toggleMicrophone (run mutedRun initialHook) =
      (run mutedRun initialHook)\<lparr>tracks := (tracks (run mutedRun initialHook))
          (1 := (tracks (run mutedRun initialHook) 1)
             \<lparr>enabled := \<not> enabled (tracks (run mutedRun initialHook) 1)\<rparr>),
        isMicrophoneEnabled := \<not> enabled (tracks (run mutedRun initialHook) 1)\<rparr>"
    by blast
  from t m have two: "toggleMicrophone (toggleMicrophone (run mutedRun initialHook)) =
      (run mutedRun initialHook)\<lparr>isMicrophoneEnabled := enabled (tracks (run mutedRun initialHook) 1)\<rparr>"
    by blast
  have z: "audioTrackRef initialHook = None" by (simp add: initialHook_def)
  from toggleMicrophone_effect [of initialHook] z
  have i: "toggleMicrophone initialHook = initialHook" by blast
  have r: "(run mutedRun initialHook)\<lparr>isMicrophoneEnabled := False\<rparr> = run mutedRun initialHook"
    using m by simp
  have e1: "enabled (tracks (toggleMicrophone (run mutedRun initialHook)) 1)"
    and f1: "isMicrophoneEnabled (toggleMicrophone (run mutedRun initialHook))"
    using m by (simp_all add: one)
  have t2: "toggleMicrophone (toggleMicrophone (run mutedRun initialHook)) = run mutedRun initialHook"
    using two r m by simp
  from m z i e1 f1 t2 show ?thesis by blast
qed

section \<open>Stopping with no active recorder\<close>

text \<open>
  C9. \<open>stopRecording\<close> acts only when a recorder exists and \<open>isRecording\<close> holds.
  In every other state it returns the state as it was: the recording and paused flags,
  the reported time, the artifact, the error and everything else are unaltered.
\<close>

theorem stopRecording_inactive_noop:
  "mediaRecorderRef s = None \<or> \<not> isRecording s \<Longrightarrow> stopRecording s = s"
  by (auto simp: stopRecording_def split: option.splits)

theorem stopRecording_inactive_noop_witness:
  "(mediaRecorderRef initialHook = None \<or> \<not> isRecording initialHook)
   \<and> stopRecording initialHook = initialHook"
  using stopRecording_inactive_noop [of initialHook] by (simp add: initialHook_def)


section \<open>Trim validation (the VideoTrimmer component)\<close>

text \<open>
  \<open>handleTrim\<close> parses the two text fields with \<open>parseFloat\<close>, which yields any
  number of the language: a finite one, an infinity or NaN. The finite numbers are the
  doubles, a subset of the reals; comparisons are exact, and the one subtraction rounds
  its result, by the function \<open>rnd\<close> that the arithmetic of the machine fixes and
  that is an argument here.
\<close>

datatype jsnum = NaN | NegInf | Fin real | PosInf

fun js_isNaN :: "jsnum \<Rightarrow> bool" where
  "js_isNaN NaN = True"
| "js_isNaN x = False"

fun js_lt :: "jsnum \<Rightarrow> jsnum \<Rightarrow> bool" where
  "js_lt NaN y = False"
| "js_lt x NaN = False"
| "js_lt PosInf y = False"
| "js_lt x NegInf = False"
| "js_lt NegInf y = True"
| "js_lt x PosInf = True"
| "js_lt (Fin a) (Fin b) = (a < b)"

definition js_gt :: "jsnum \<Rightarrow> jsnum \<Rightarrow> bool" where
  "js_gt x y = js_lt y x"

definition js_ge :: "jsnum \<Rightarrow> jsnum \<Rightarrow> bool" where
  "js_ge x y \<longleftrightarrow> \<not> js_isNaN x \<and> \<not> js_isNaN y \<and> \<not> js_lt x y"

definition maxDouble :: real where
  "maxDouble = (2 ^ 53 - 1) * 2 ^ 971"

definition roundResult :: "(real \<Rightarrow> real) \<Rightarrow> real \<Rightarrow> jsnum" where
  "roundResult rnd r =
     (if rnd r > maxDouble then PosInf else if rnd r < - maxDouble then NegInf else Fin (rnd r))"

fun js_sub :: "(real \<Rightarrow> real) \<Rightarrow> jsnum \<Rightarrow> jsnum \<Rightarrow> jsnum" where
  "js_sub rnd NaN y = NaN"
| "js_sub rnd x NaN = NaN"
| "js_sub rnd PosInf PosInf = NaN"
| "js_sub rnd NegInf NegInf = NaN"
| "js_sub rnd PosInf y = PosInf"
| "js_sub rnd NegInf y = NegInf"
| "js_sub rnd (Fin a) PosInf = NegInf"
| "js_sub rnd (Fin a) NegInf = PosInf"
| "js_sub rnd (Fin a) (Fin b) = roundResult rnd (a - b)"

text \<open>The literal \<open>0.1\<close> is the double nearest to one tenth.\<close>

definition tenth :: jsnum where
  "tenth = Fin (3602879701896397 / 36028797018963968)"

text \<open>
  The messages are the strings of the source; \<open>EndTimeLimit d\<close> stands for the one
  built from the duration, \<open>End time must be <= ${duration.toFixed(2)} seconds\<close>.
\<close>

datatype message = Text string | EndTimeLimit jsnum

definition validateTrim :: "(real \<Rightarrow> real) \<Rightarrow> jsnum \<Rightarrow> jsnum \<Rightarrow> jsnum \<Rightarrow> message option" where
  "validateTrim rnd start end duration =
     (if js_isNaN start \<or> js_isNaN end then
        Some (Text ''Please enter valid numbers for start and end times'')
      else if js_lt start (Fin 0) then Some (Text ''Start time must be >= 0'')
      else if js_gt end duration then Some (EndTimeLimit duration)
      else if js_ge start end then Some (Text ''Start time must be less than end time'')
      else if js_lt (js_sub rnd end start) tenth then
        Some (Text ''Trimmed video must be at least 0.1 seconds long'')
      else None)"

text \<open>
  The component's state, with the calls it makes into the engine module
  (\<open>loadFFmpeg\<close>, \<open>trimVideo\<close>) recorded in order. What the engine answers is an
  argument.
\<close>

datatype engine_call = LoadFFmpeg | TrimVideo blob jsnum jsnum

record trim_env =
  loadSucceeds :: bool
  trimResult :: "thrown + blob"

record trimmer =
  videoBlobProp :: "blob option"
  duration :: jsnum
  ffmpegLoadedRef :: bool
  isLoadingFFmpeg :: bool
  isTrimming :: bool
  trimError :: "message option"
  trimmedBlob :: "blob option"
  engineCalls :: "engine_call list"

definition trimErrorMessage :: "thrown \<Rightarrow> string" where
  "trimErrorMessage e =
     (case e of ErrorObject m \<Rightarrow> m | OtherValue \<Rightarrow> ''Failed to trim video'')"

definition runTrim :: "trim_env \<Rightarrow> blob \<Rightarrow> jsnum \<Rightarrow> jsnum \<Rightarrow> trimmer \<Rightarrow> trimmer" where
  "runTrim env vb start end st =
     (let st1 = st\<lparr>isTrimming := True, trimError := None,
                   engineCalls := engineCalls st @ [TrimVideo vb start end]\<rparr>;
          st2 = (case trimResult env of
                   Inr trimmed \<Rightarrow> st1\<lparr>trimmedBlob := Some trimmed\<rparr>
                 | Inl e \<Rightarrow> st1\<lparr>trimError := Some (Text (trimErrorMessage e))\<rparr>)
      in st2\<lparr>isTrimming := False\<rparr>)"

definition validateAndTrim ::
  "(real \<Rightarrow> real) \<Rightarrow> trim_env \<Rightarrow> blob \<Rightarrow> jsnum \<Rightarrow> jsnum \<Rightarrow> trimmer \<Rightarrow> trimmer" where
  "validateAndTrim rnd env vb start end st =
     (case validateTrim rnd start end (duration st) of
        Some m \<Rightarrow> st\<lparr>trimError := Some m\<rparr>
      | None \<Rightarrow> runTrim env vb start end st)"

definition handleTrim ::
  "(real \<Rightarrow> real) \<Rightarrow> trim_env \<Rightarrow> jsnum \<Rightarrow> jsnum \<Rightarrow> trimmer \<Rightarrow> trimmer" where
  "handleTrim rnd env start end st =
     (case videoBlobProp st of
        None \<Rightarrow> st
      | Some vb \<Rightarrow>
          (if \<not> ffmpegLoadedRef st then
             (let st1 = st\<lparr>isLoadingFFmpeg := True,
                           engineCalls := engineCalls st @ [LoadFFmpeg]\<rparr>
              in if loadSucceeds env then
                   validateAndTrim rnd env vb start end
                     (st1\<lparr>ffmpegLoadedRef := True, isLoadingFFmpeg := False\<rparr>)
                 else st1\<lparr>trimError := Some (Text
                        ''Failed to initialize video trimmer. Please refresh the page.''),
                      isLoadingFFmpeg := False\<rparr>)
           else validateAndTrim rnd env vb start end st))"

text \<open>Differences that are doubles themselves are not changed by the rounding.\<close>

definition noRounding :: "real \<Rightarrow> real" where
  "noRounding x = x"

definition sampleTrimmer :: trimmer where
  "sampleTrimmer = \<lparr>videoBlobProp = Some \<lparr>blobBytes = [1, 2, 3], blobType = ''video/webm''\<rparr>,
     duration = Fin 10, ffmpegLoadedRef = True, isLoadingFFmpeg = False, isTrimming = False,
     trimError = None, trimmedBlob = None, engineCalls = []\<rparr>"

definition engineReady :: trim_env where
  "engineReady = \<lparr>loadSucceeds = True,
     trimResult = Inr \<lparr>blobBytes = [2], blobType = ''video/webm''\<rparr>\<rparr>"

lemma js_ge_iff: "js_ge x y \<longleftrightarrow> x \<noteq> NaN \<and> y \<noteq> NaN \<and> \<not> js_lt x y"
  by (cases x; cases y) (simp_all add: js_ge_def)

lemma js_isNaN_iff: "js_isNaN x \<longleftrightarrow> x = NaN"
  by (cases x) simp_all

text \<open>
  C5, as the code has it. The first check is \<open>isNaN\<close>, so an infinite time is not
  caught by it: a start of minus infinity fails the second check, a start of plus
  infinity the fourth, an infinite end the third, and an infinite end is accepted when
  the known duration is infinite too.
\<close>

theorem trim_validation_not_finiteness:
  "validateTrim noRounding NegInf (Fin 5) (Fin 10) = Some (Text ''Start time must be >= 0'') \<and>
   validateTrim noRounding PosInf (Fin 5) (Fin 10)
     = Some (Text ''Start time must be less than end time'') \<and>
   validateTrim noRounding (Fin 0) PosInf (Fin 10) = Some (EndTimeLimit (Fin 10)) \<and>
   validateTrim noRounding (Fin 0) PosInf PosInf = None"
  by (simp add: validateTrim_def js_gt_def js_ge_def tenth_def)

text \<open>
  C5, amended. The five checks are made in this order and the first that fails decides
  the message: start or end is NaN; start < 0; end > known duration; start >= end;
  end - start < 0.1. Each message is the result exactly when its check fails and all
  earlier ones pass, and validation passes exactly when no check fails. With start 5,
  end 4 and duration 10 the message is the one of the fourth check. When validation
  fails, \<open>handleTrim\<close>, which the Trim button offers only once the engine is loaded,
  sets the error to that message and changes nothing else: no call into the engine is
  made.
\<close>

theorem trim_validation_order:
  "(validateTrim rnd s e d = Some (Text ''Please enter valid numbers for start and end times'')
      \<longleftrightarrow> s = NaN \<or> e = NaN) \<and>
   (validateTrim rnd s e d = Some (Text ''Start time must be >= 0'')
      \<longleftrightarrow> s \<noteq> NaN \<and> e \<noteq> NaN \<and> js_lt s (Fin 0)) \<and>
   (validateTrim rnd s e d = Some (EndTimeLimit d)
      \<longleftrightarrow> s \<noteq> NaN \<and> e \<noteq> NaN \<and> \<not> js_lt s (Fin 0) \<and> js_gt e d) \<and>
   (validateTrim rnd s e d = Some (Text ''Start time must be less than end time'')
      \<longleftrightarrow> s \<noteq> NaN \<and> e \<noteq> NaN \<and> \<not> js_lt s (Fin 0) \<and> \<not> js_gt e d \<and> js_ge s e) \<and>
   (validateTrim rnd s e d = Some (Text ''Trimmed video must be at least 0.1 seconds long'')
      \<longleftrightarrow> s \<noteq> NaN \<and> e \<noteq> NaN \<and> \<not> js_lt s (Fin 0) \<and> \<not> js_gt e d \<and> \<not> js_ge s e \<and>
          js_lt (js_sub rnd e s) tenth) \<and>
   (validateTrim rnd s e d = None
      \<longleftrightarrow> s \<noteq> NaN \<and> e \<noteq> NaN \<and> \<not> js_lt s (Fin 0) \<and> \<not> js_gt e d \<and> \<not> js_ge s e \<and>
          \<not> js_lt (js_sub rnd e s) tenth) \<and>
   validateTrim rnd (Fin 5) (Fin 4) (Fin 10)
     = Some (Text ''Start time must be less than end time'') \<and>
   (\<forall>m vb. validateTrim rnd s e (duration st) = Some m \<and> videoBlobProp st = Some vb \<and>
        ffmpegLoadedRef st \<longrightarrow>
      handleTrim rnd env s e st = st\<lparr>trimError := Some m\<rparr>)"
  by (auto simp: validateTrim_def js_isNaN_iff js_ge_iff js_gt_def handleTrim_def
      validateAndTrim_def Let_def)

theorem trim_validation_order_witness:
  "validateTrim noRounding (Fin 5) (Fin 4) (duration sampleTrimmer)
     = Some (Text ''Start time must be less than end time'') \<and>
   videoBlobProp sampleTrimmer = Some \<lparr>blobBytes = [1, 2, 3], blobType = ''video/webm''\<rparr> \<and>
   ffmpegLoadedRef sampleTrimmer \<and>
   handleTrim noRounding engineReady (Fin 5) (Fin 4) sampleTrimmer
     = sampleTrimmer\<lparr>trimError := Some (Text ''Start time must be less than end time'')\<rparr> \<and>
   engineCalls (handleTrim noRounding engineReady (Fin 5) (Fin 4) sampleTrimmer) = []"
proof -
  have v: "validateTrim noRounding (Fin 5) (Fin 4) (duration sampleTrimmer)
             = Some (Text ''Start time must be less than end time'')"
    by (simp add: validateTrim_def js_gt_def js_ge_def sampleTrimmer_def)
  have b: "videoBlobProp sampleTrimmer
             = Some \<lparr>blobBytes = [1, 2, 3], blobType = ''video/webm''\<rparr>"
    by (simp add: sampleTrimmer_def)
  have l: "ffmpegLoadedRef sampleTrimmer"
    by (simp add: sampleTrimmer_def)
  have c: "engineCalls sampleTrimmer = []"
    by (simp add: sampleTrimmer_def)
  from trim_validation_order [of noRounding "Fin 5" "Fin 4" "Fin 10" sampleTrimmer engineReady]
    v b l
  have h: "handleTrim noRounding engineReady (Fin 5) (Fin 4) sampleTrimmer
     = sampleTrimmer\<lparr>trimError := Some (Text ''Start time must be less than end time'')\<rparr>"
    by blast
  from v b l c show ?thesis by (simp add: h)
qed

section \<open>Watch progress (src/lib/db.ts and the analytics route)\<close>

text \<open>
  The store is one JSON object keyed by video id, read whole and written whole. An entry
  of \<open>watchProgress\<close> is a number, or the flag \<open>true\<close> under the key
  \<open>${sessionId}_completed\<close>. An object is a finite map of its own properties over
  the members it inherits from \<open>Object.prototype\<close>: reading a key it does not own
  yields the inherited member, if the key names one. The creation time is an argument.
  The literal \<open>0.95\<close> is the double nearest to it, and the comparison with it is
  exact.
\<close>

datatype progress_entry = Progress real | CompletedFlag

record video_record =
  id_rec :: string
  createdAt :: string
  viewCount :: int
  watchCompletions :: int
  watchProgress :: "string \<rightharpoonup> progress_entry"

type_synonym db = "string \<rightharpoonup> video_record"

datatype js_error = TypeError

definition objectPrototypeKeys :: "string list" where
  "objectPrototypeKeys = [''constructor'', ''__defineGetter__'', ''__defineSetter__'',
     ''hasOwnProperty'', ''__lookupGetter__'', ''__lookupSetter__'', ''isPrototypeOf'',
     ''propertyIsEnumerable'', ''toString'', ''valueOf'', ''__proto__'', ''toLocaleString'']"

text \<open>
  \<open>db[videoId] = record\<close> writes an own property, except under the key
  \<open>__proto__\<close> when the object does not own it: the inherited setter then takes the
  value and no property is written.
\<close>

definition createVideoRecord :: "string \<Rightarrow> string \<Rightarrow> db \<Rightarrow> db" where
  "createVideoRecord now videoId d =
     (if videoId = ''__proto__'' \<and> d videoId = None then d
      else d(videoId \<mapsto> \<lparr>id_rec = videoId, createdAt = now, viewCount = 0,
                           watchCompletions = 0, watchProgress = Map.empty\<rparr>))"

text \<open>What \<open>!x\<close> negates: a missing entry and the number zero are falsy.\<close>

fun truthy :: "progress_entry option \<Rightarrow> bool" where
  "truthy None = False"
| "truthy (Some (Progress x)) = (x \<noteq> 0)"
| "truthy (Some CompletedFlag) = True"

definition completionThreshold :: real where
  "completionThreshold = 4278419646001971 / 4503599627370496"

definition completedKey :: "string \<Rightarrow> string" where
  "completedKey sessionId = sessionId @ ''_completed''"

text \<open>
  \<open>watchProgress[sessionId] = progress\<close>: an own property is written, except under
  the key \<open>__proto__\<close> when the object does not own it: the inherited setter ignores
  a number.
\<close>

definition setProgress ::
  "(string \<rightharpoonup> progress_entry) \<Rightarrow> string \<Rightarrow> real \<Rightarrow> (string \<rightharpoonup> progress_entry)" where
  "setProgress wp sessionId progress =
     (if sessionId = ''__proto__'' \<and> wp sessionId = None then wp
      else wp(sessionId \<mapsto> Progress progress))"

text \<open>
  \<open>updateWatchProgress\<close>. For a video id the store does not own, \<open>db[videoId]\<close> is
  undefined and the record is created first, unless the id names an inherited member:
  then \<open>db[videoId]\<close> is that member, which is truthy and has no \<open>watchProgress\<close>,
  and the assignment into it throws.
\<close>

function updateWatchProgress ::
  "string \<Rightarrow> db \<Rightarrow> string \<Rightarrow> string \<Rightarrow> real \<Rightarrow> js_error + db" where
  "updateWatchProgress now d videoId sessionId progress =
     (case d videoId of
        None \<Rightarrow>
          (if videoId \<in> set objectPrototypeKeys then Inl TypeError
           else updateWatchProgress now (createVideoRecord now videoId d)
                  videoId sessionId progress)
      | Some r \<Rightarrow>
          (let r1 = r\<lparr>watchProgress := setProgress (watchProgress r) sessionId progress\<rparr>;
               r2 = (if progress \<ge> completionThreshold
                        \<and> \<not> truthy (watchProgress r1 (completedKey sessionId))
                     then r1\<lparr>watchCompletions := watchCompletions r1 + 1,
                             watchProgress := (watchProgress r1)
                               (completedKey sessionId \<mapsto> CompletedFlag)\<rparr>
                     else r1)
           in Inr (d(videoId \<mapsto> r2))))"
  by pat_completeness auto
termination
  by (relation "measure (\<lambda>(now, d, videoId, sessionId, progress).
        if d videoId = None then 1 else 0)")
     (auto simp: createVideoRecord_def objectPrototypeKeys_def)

text \<open>
  The route \<open>POST /analytics\<close>, for a body whose three fields have their types: the
  status it answers with, and the store afterwards. An update that throws writes nothing.
\<close>

definition POST_analytics :: "string \<Rightarrow> db \<Rightarrow> string \<Rightarrow> string \<Rightarrow> real \<Rightarrow> nat \<times> db" where
  "POST_analytics now d videoId sessionId progress =
     (if videoId = [] \<or> sessionId = [] then (400, d)
      else if progress < 0 \<or> progress > 1 then (400, d)
      else (case updateWatchProgress now d videoId sessionId progress of
              Inr d' \<Rightarrow> (200, d')
            | Inl e \<Rightarrow> (500, d)))"

text \<open>A sequence of posts for one video, each a session id and a progress.\<close>

definition posts :: "string \<Rightarrow> string \<Rightarrow> (string \<times> real) list \<Rightarrow> db \<Rightarrow> db" where
  "posts now videoId ps d =
     fold (\<lambda>(sessionId, progress) d'. snd (POST_analytics now d' videoId sessionId progress)) ps d"

definition completionsOf :: "db \<Rightarrow> string \<Rightarrow> int" where
  "completionsOf d videoId = (case d videoId of None \<Rightarrow> 0 | Some r \<Rightarrow> watchCompletions r)"

lemma update_existing:
  "d v = Some r \<Longrightarrow>
   updateWatchProgress now d v sid p =
     Inr (d(v \<mapsto> (let r1 = r\<lparr>watchProgress := setProgress (watchProgress r) sid p\<rparr>
              in if p \<ge> completionThreshold \<and> \<not> truthy (watchProgress r1 (completedKey sid))
                 then r1\<lparr>watchCompletions := watchCompletions r1 + 1,
                         watchProgress := (watchProgress r1)(completedKey sid \<mapsto> CompletedFlag)\<rparr>
                 else r1)))"
  by (simp add: Let_def)

lemma update_absent:
  "d v = None \<Longrightarrow>
   updateWatchProgress now d v sid p =
     (if v \<in> set objectPrototypeKeys then Inl TypeError
      else updateWatchProgress now (createVideoRecord now v d) v sid p)"
  by (subst updateWatchProgress.simps) simp

lemma post_fresh:
  "v \<notin> set objectPrototypeKeys \<Longrightarrow> v \<noteq> [] \<Longrightarrow> sid \<noteq> [] \<Longrightarrow> 0 \<le> p \<Longrightarrow> p \<le> 1 \<Longrightarrow>
   snd (POST_analytics now Map.empty v sid p) =
     [v \<mapsto> (let r1 = \<lparr>id_rec = v, createdAt = now, viewCount = 0, watchCompletions = 0,
                       watchProgress = setProgress Map.empty sid p\<rparr>
              in if p \<ge> completionThreshold \<and> \<not> truthy (watchProgress r1 (completedKey sid))
                 then r1\<lparr>watchCompletions := watchCompletions r1 + 1,
                         watchProgress := (watchProgress r1)(completedKey sid \<mapsto> CompletedFlag)\<rparr>
                 else r1)]"
  by (auto simp add: POST_analytics_def update_absent createVideoRecord_def
      objectPrototypeKeys_def
      update_existing [where d = "[v \<mapsto> \<lparr>id_rec = v, createdAt = now, viewCount = 0,
        watchCompletions = 0, watchProgress = Map.empty\<rparr>]" and v = v]
      Let_def del: updateWatchProgress.simps)

lemma post_existing:
  "d v = Some r \<Longrightarrow> v \<noteq> [] \<Longrightarrow> sid \<noteq> [] \<Longrightarrow> 0 \<le> p \<Longrightarrow> p \<le> 1 \<Longrightarrow>
   snd (POST_analytics now d v sid p) =
     d(v \<mapsto> (let r1 = r\<lparr>watchProgress := setProgress (watchProgress r) sid p\<rparr>
              in if p \<ge> completionThreshold \<and> \<not> truthy (watchProgress r1 (completedKey sid))
                 then r1\<lparr>watchCompletions := watchCompletions r1 + 1,
                         watchProgress := (watchProgress r1)(completedKey sid \<mapsto> CompletedFlag)\<rparr>
                 else r1))"
  by (simp add: POST_analytics_def update_existing del: updateWatchProgress.simps)

text \<open>
  C8, as the code has it. The completion flag of a session lives in the same map as the
  progress of every session, under the session's id followed by \<open>_completed\<close>, so a
  session with that id writes over it. With session \<open>s1_completed\<close> posting 0.5 first,
  two posts of 0.95 by session \<open>s1\<close> count no completion; with \<open>s1_completed\<close>
  posting 0 between them they count two. And for a video id that names an inherited
  member of the store object the update throws, the route answers 500 and nothing is
  counted.
\<close>

theorem completion_miscounted:
  "completionsOf (posts ''t'' ''v1''
      [(''s1_completed'', 1 / 2), (''s1'', 95 / 100), (''s1'', 95 / 100)] Map.empty) ''v1'' = 0 \<and>
   completionsOf (posts ''t'' ''v1''
      [(''s1'', 95 / 100), (''s1_completed'', 0), (''s1'', 95 / 100)] Map.empty) ''v1'' = 2 \<and>
   completionsOf (posts ''t'' ''v1'' [(''s1'', 95 / 100), (''s1'', 95 / 100)] Map.empty) ''v1'' = 1 \<and>
   updateWatchProgress ''t'' Map.empty ''constructor'' ''s1'' (95 / 100) = Inl TypeError \<and>
   POST_analytics ''t'' Map.empty ''constructor'' ''s1'' (95 / 100) = (500, Map.empty)"
proof -
  have v: "''v1'' \<notin> set objectPrototypeKeys"
    by (simp add: objectPrototypeKeys_def)
  have a: "completionsOf (posts ''t'' ''v1''
      [(''s1_completed'', 1 / 2), (''s1'', 95 / 100), (''s1'', 95 / 100)] Map.empty) ''v1'' = 0"
    using v
    by (simp add: posts_def post_fresh post_existing completionsOf_def setProgress_def
        completedKey_def completionThreshold_def Let_def)
  have b: "completionsOf (posts ''t'' ''v1''
      [(''s1'', 95 / 100), (''s1_completed'', 0), (''s1'', 95 / 100)] Map.empty) ''v1'' = 2"
    using v
    by (simp add: posts_def post_fresh post_existing completionsOf_def setProgress_def
        completedKey_def completionThreshold_def Let_def)
  have c: "completionsOf (posts ''t'' ''v1''
      [(''s1'', 95 / 100), (''s1'', 95 / 100)] Map.empty) ''v1'' = 1"
    using v
    by (simp add: posts_def post_fresh post_existing completionsOf_def setProgress_def
        completedKey_def completionThreshold_def Let_def)
  have d: "updateWatchProgress ''t'' Map.empty ''constructor'' ''s1'' (95 / 100) = Inl TypeError"
    by (simp add: update_absent objectPrototypeKeys_def del: updateWatchProgress.simps)
  have e: "POST_analytics ''t'' Map.empty ''constructor'' ''s1'' (95 / 100) = (500, Map.empty)"
    using d by (simp add: POST_analytics_def del: updateWatchProgress.simps)
  from a b c d e show ?thesis by blast
qed

section \<open>Serving a video file (the storage module and the video route)\<close>

text \<open>
  \<open>path.join\<close> of the platform joins its non-empty arguments with a slash and
  normalizes the result: empty and \<open>.\<close> segments go, a \<open>..\<close> segment removes the
  segment before it, and above the root of an absolute path it is dropped.
\<close>

fun splitSlash :: "string \<Rightarrow> string \<Rightarrow> string list" where
  "splitSlash cur [] = [cur]"
| "splitSlash cur (c # cs) =
     (if c = CHR ''/'' then cur # splitSlash [] cs else splitSlash (cur @ [c]) cs)"

fun joinSlash :: "string list \<Rightarrow> string" where
  "joinSlash [] = []"
| "joinSlash [s] = s"
| "joinSlash (s # t # ss) = s @ ''/'' @ joinSlash (t # ss)"

fun normalizeString :: "bool \<Rightarrow> string list \<Rightarrow> string list \<Rightarrow> string list" where
  "normalizeString allowAboveRoot res [] = res"
| "normalizeString allowAboveRoot res (seg # segs) =
     (if seg = [] \<or> seg = ''.'' then normalizeString allowAboveRoot res segs
      else if seg = ''..'' then
        (if res \<noteq> [] \<and> last res \<noteq> ''..''
         then normalizeString allowAboveRoot (butlast res) segs
         else if allowAboveRoot then normalizeString allowAboveRoot (res @ [''..'']) segs
         else normalizeString allowAboveRoot res segs)
      else normalizeString allowAboveRoot (res @ [seg]) segs)"

definition path_normalize :: "string \<Rightarrow> string" where
  "path_normalize p =
     (if p = [] then ''.''
      else
        (let isAbsolute = (hd p = CHR ''/'');
             trailingSeparator = (last p = CHR ''/'');
             body = joinSlash (normalizeString (\<not> isAbsolute) [] (splitSlash [] p))
         in if body = [] then
              (if isAbsolute then ''/'' else if trailingSeparator then ''./'' else ''.'')
            else
              (let body' = (if trailingSeparator then body @ ''/'' else body)
               in if isAbsolute then ''/'' @ body' else body')))"

definition path_join :: "string \<Rightarrow> string \<Rightarrow> string" where
  "path_join a b =
     (if a = [] \<and> b = [] then ''.''
      else if a = [] then path_normalize b
      else if b = [] then path_normalize a
      else path_normalize (a @ ''/'' @ b))"

text \<open>The storage module; the working directory of the process is an argument.\<close>

definition UPLOADS_DIR :: "string \<Rightarrow> string" where
  "UPLOADS_DIR cwd = path_join cwd ''uploads''"

definition getVideoPath :: "string \<Rightarrow> string \<Rightarrow> string" where
  "getVideoPath cwd videoId = path_join (UPLOADS_DIR cwd) (videoId @ ''.webm'')"

datatype fs_entry = File "byte list" | Directory

type_synonym filesystem = "string \<rightharpoonup> fs_entry"

definition videoExists :: "string \<Rightarrow> filesystem \<Rightarrow> string \<Rightarrow> bool" where
  "videoExists cwd fs videoId = (fs (getVideoPath cwd videoId) \<noteq> None)"

text \<open>
  The route: 400 without an id, 404 when nothing exists at the path, the bytes of the
  file otherwise, and 500 when reading throws (the path is a directory).
\<close>

datatype response = Ok200 "byte list" | BadRequest400 | NotFound404 | ServerError500

definition GET_video :: "string \<Rightarrow> filesystem \<Rightarrow> string \<Rightarrow> response" where
  "GET_video cwd fs videoId =
     (if videoId = [] then BadRequest400
      else if \<not> videoExists cwd fs videoId then NotFound404
      else (case fs (getVideoPath cwd videoId) of
              Some (File bytes) \<Rightarrow> Ok200 bytes
            | _ \<Rightarrow> ServerError500))"

text \<open>
  A path lies inside a directory when it continues the directory's path after a slash.
  An absolute working directory is given by its segments, none of them empty, a dot
  segment or holding a slash.
\<close>

definition insideDirectory :: "string \<Rightarrow> string \<Rightarrow> bool" where
  "insideDirectory dir p \<longleftrightarrow> prefix (dir @ ''/'') p"

definition properSegment :: "string \<Rightarrow> bool" where
  "properSegment s \<longleftrightarrow> s \<noteq> [] \<and> CHR ''/'' \<notin> set s \<and> s \<noteq> ''.'' \<and> s \<noteq> ''..''"

definition absolutePath :: "string list \<Rightarrow> string" where
  "absolutePath segs = ''/'' @ joinSlash segs"

lemma splitSlash_segment:
  "CHR ''/'' \<notin> set s \<Longrightarrow> splitSlash cur (s @ CHR ''/'' # r) = (cur @ s) # splitSlash [] r"
  by (induction s arbitrary: cur) auto

lemma splitSlash_joinSlash:
  "list_all properSegment segs \<Longrightarrow> segs \<noteq> [] \<Longrightarrow>
   splitSlash cur (joinSlash segs @ CHR ''/'' # r) = (cur @ hd segs) # tl segs @ splitSlash [] r"
proof (induction segs arbitrary: cur rule: joinSlash.induct)
  case 1
  then show ?case by simp
next
  case (2 s)
  then show ?case by (simp add: properSegment_def splitSlash_segment)
next
  case (3 s t ss)
  then show ?case by (simp add: properSegment_def splitSlash_segment)
qed

lemma normalizeString_proper:
  "list_all properSegment segs \<Longrightarrow>
   normalizeString a res (segs @ rest) = normalizeString a (res @ segs) rest"
  by (induction segs arbitrary: res) (auto simp: properSegment_def)

lemma joinSlash_snoc:
  "segs \<noteq> [] \<Longrightarrow> joinSlash (segs @ [s]) = joinSlash segs @ ''/'' @ s"
  by (induction segs rule: joinSlash.induct) auto

lemma uploads_dir:
  assumes "list_all properSegment segs"
  shows "UPLOADS_DIR (absolutePath segs) = absolutePath (segs @ [''uploads''])"
proof (cases "segs = []")
  case True
  then show ?thesis
    by (simp add: UPLOADS_DIR_def absolutePath_def path_join_def path_normalize_def)
next
  case False
  have "splitSlash [] (absolutePath segs @ ''/'' @ ''uploads'') = [] # segs @ [''uploads'']"
    using assms False
    by (simp add: absolutePath_def splitSlash_joinSlash)
  then have "normalizeString False [] (splitSlash [] (absolutePath segs @ ''/'' @ ''uploads''))
        = segs @ [''uploads'']"
    using assms normalizeString_proper [of segs False "[]" "[''uploads'']"] by simp
  then show ?thesis
    using False
    by (simp add: UPLOADS_DIR_def absolutePath_def path_join_def path_normalize_def Let_def
        joinSlash_snoc)
qed

lemma escaping_path:
  assumes "list_all properSegment segs"
  shows "getVideoPath (absolutePath segs) ''../secret'' = absolutePath (segs @ [''secret.webm''])"
proof -
  have p: "list_all properSegment (segs @ [''uploads''])"
    using assms by (simp add: properSegment_def)
  have "splitSlash [] (absolutePath (segs @ [''uploads'']) @ ''/'' @ ''../secret.webm'')
          = [] # (segs @ [''uploads'']) @ [''..'', ''secret.webm'']"
    using p by (simp add: absolutePath_def splitSlash_joinSlash del: joinSlash.simps)
  then have "normalizeString False [] (splitSlash [] (absolutePath (segs @ [''uploads''])
               @ ''/'' @ ''../secret.webm'')) = segs @ [''secret.webm'']"
    using normalizeString_proper [OF p, of False "[]" "[''..'', ''secret.webm'']"] by simp
  then show ?thesis
    using uploads_dir [OF assms]
    by (cases "segs = []")
       (simp_all add: getVideoPath_def absolutePath_def path_join_def path_normalize_def Let_def
          joinSlash_snoc)
qed

lemma outside_uploads:
  "\<not> insideDirectory (absolutePath (segs @ [''uploads''])) (absolutePath (segs @ [''secret.webm'']))"
  by (cases "segs = []") (simp_all add: insideDirectory_def absolutePath_def joinSlash_snoc)

text \<open>
  C10. Whatever the working directory, the id \<open>../secret\<close> resolves to the file
  \<open>secret.webm\<close> beside the uploads directory, not inside it, and the route answers
  with the bytes of that file when it exists.
\<close>

theorem video_path_escapes_uploads:
  assumes "list_all properSegment segs"
  shows "getVideoPath (absolutePath segs) ''../secret'' = absolutePath (segs @ [''secret.webm'']) \<and>
         \<not> insideDirectory (UPLOADS_DIR (absolutePath segs))
             (getVideoPath (absolutePath segs) ''../secret'') \<and>
         (\<forall>fs bytes. fs (absolutePath (segs @ [''secret.webm''])) = Some (File bytes) \<longrightarrow>
            GET_video (absolutePath segs) fs ''../secret'' = Ok200 bytes)"
  using escaping_path [OF assms] uploads_dir [OF assms] outside_uploads [of segs]
  by (simp add: GET_video_def videoExists_def)

theorem video_path_escapes_uploads_witness:
  "list_all properSegment [''srv'', ''app''] \<and>
   UPLOADS_DIR ''/srv/app'' = ''/srv/app/uploads'' \<and>
   getVideoPath ''/srv/app'' ''../secret'' = ''/srv/app/secret.webm'' \<and>
   \<not> insideDirectory ''/srv/app/uploads'' ''/srv/app/secret.webm'' \<and>
   GET_video ''/srv/app'' [''/srv/app/secret.webm'' \<mapsto> File [7, 7, 7]] ''../secret''
     = Ok200 [7, 7, 7]"
proof -
  have p: "list_all properSegment [''srv'', ''app'']"
    by (simp add: properSegment_def)
  have a: "absolutePath [''srv'', ''app''] = ''/srv/app''"
    and b: "absolutePath ([''srv'', ''app''] @ [''secret.webm'']) = ''/srv/app/secret.webm''"
    and c: "absolutePath ([''srv'', ''app''] @ [''uploads'']) = ''/srv/app/uploads''"
    by (simp_all add: absolutePath_def)
  note t = video_path_escapes_uploads [OF p]
  from t have g: "getVideoPath (absolutePath [''srv'', ''app'']) ''../secret''
                    = absolutePath ([''srv'', ''app''] @ [''secret.webm''])"
    by (rule conjunct1)
  from t have o: "\<not> insideDirectory (UPLOADS_DIR (absolutePath [''srv'', ''app'']))
                     (getVideoPath (absolutePath [''srv'', ''app'']) ''../secret'')"
    by blast
  from t have r: "GET_video (absolutePath [''srv'', ''app''])
          [absolutePath ([''srv'', ''app''] @ [''secret.webm'']) \<mapsto> File [7, 7, 7]] ''../secret''
        = Ok200 [7, 7, 7]"
    by simp
  have u: "UPLOADS_DIR (absolutePath [''srv'', ''app''])
             = absolutePath ([''srv'', ''app''] @ [''uploads''])"
    using p by (rule uploads_dir)
  from g o r u p show ?thesis
    unfolding a b c by simp
qed

end
